theory Spec2Isabelle
  imports Main "HOL-Library.Multiset"
begin

section \<open>The dns subcommand (cmd/amass/dns.go)\<close>

subsection \<open>Requests, answers and the collaborators outside the sources\<close>

text \<open>
  \<^verbatim>\<open>requests.DNSAnswer\<close> and \<^verbatim>\<open>requests.DNSRequest\<close>, with the fields that
  \<^verbatim>\<open>dns.go\<close> reads and writes. The fields carry a prefix, since \<open>Domain\<close> is a
  constant of HOL. \<^verbatim>\<open>rec.Type\<close> is an \<^verbatim>\<open>int\<close> that the code converts with
  \<^verbatim>\<open>uint16(...)\<close>.
\<close>

record DNSAnswer =
  ans_Type :: int
  ans_Data :: string

record DNSRequest =
  req_Name :: string
  req_Domain :: string
  req_Records :: "DNSAnswer list"

text \<open>
  Modelled from the spec: the package \<^verbatim>\<open>resolvers\<close> is not among the sources. The
  wildcard classification is one of None, Static and Dynamic, and a query priority is Low
  or High.
\<close>

datatype WildcardType = WildcardTypeNone | WildcardTypeStatic | WildcardTypeDynamic

datatype Priority = PriorityLow | PriorityHigh

text \<open>
  The resolver pool \<^verbatim>\<open>sys.Pool()\<close> is a parameter: a record of its four methods over
  a pool state \<open>'p\<close> of any type, which stands for everything the pool's answers depend
  on (its caches, the network, the shared context and whether it has been cancelled).
  A method that may change that state returns the new one. \<^verbatim>\<open>Resolve\<close> returns the
  answers and the error (\<open>None\<close> is Go's \<^verbatim>\<open>nil\<close>); its second result, the elapsed
  time, is discarded by the caller and left out.
\<close>

record 'p Pool =
  SubdomainToDomain :: "'p \<Rightarrow> string \<Rightarrow> string"
  GetWildcardType :: "'p \<Rightarrow> DNSRequest \<Rightarrow> WildcardType \<times> 'p"
  Resolve :: "'p \<Rightarrow> string \<Rightarrow> string \<Rightarrow> Priority \<Rightarrow> (DNSAnswer list \<times> string option) \<times> 'p"
  MatchesWildcard :: "'p \<Rightarrow> DNSRequest \<Rightarrow> bool \<times> 'p"

text \<open>
  The fields of \<^verbatim>\<open>config.Config\<close> that the resolution reads. The method
  \<^verbatim>\<open>cfg.Blacklisted\<close> belongs to a package outside the sources and is a parameter.
  \<open>MaxDNSQueries\<close> is the number of tickets of \<^verbatim>\<open>cfg.SemMaxDNSQueries\<close>.
\<close>

record Config =
  ProvidedNames :: "string list"
  RecordTypes :: "string list"
  Timeout :: int
  MaxDNSQueries :: nat
  Blacklisted :: "string \<Rightarrow> bool"

subsection \<open>dnsArgs.OverrideConfig: the record types\<close>

text \<open>
  \<^verbatim>\<open>strings.ToUpper\<close> on the ASCII letters; every other byte is kept. Go's function
  also maps the letters beyond ASCII, which the names of DNS record types do not contain;
  the general facts proved below about the record types hold for any function in its
  place, and the concrete ones need its values on \<^verbatim>\<open>A\<close> and \<^verbatim>\<open>CNAME\<close> only.
\<close>

definition upper_char :: "char \<Rightarrow> char" where
  "upper_char c =
     (case map_of (zip ''abcdefghijklmnopqrstuvwxyz'' ''ABCDEFGHIJKLMNOPQRSTUVWXYZ'') c of
        Some u \<Rightarrow> u
      | None \<Rightarrow> c)"

definition ToUpper :: "string \<Rightarrow> string" where
  "ToUpper s = map upper_char s"

text \<open>
  One iteration of the \<^verbatim>\<open>range\<close> loop over \<^verbatim>\<open>conf.RecordTypes\<close>, at index \<open>i\<close>:
  the element is upper-cased in place and, when it then reads \<^verbatim>\<open>CNAME\<close>, swapped with
  the element at index 0. The loop visits every index below the length, so both reads are
  in range.
\<close>

definition record_type_iter :: "nat \<Rightarrow> string list \<Rightarrow> string list" where
  "record_type_iter i ts =
     (let ts1 = ts[i := ToUpper (ts ! i)] in
      if ts1 ! i = ''CNAME'' then
        (let tmp = ts1 ! 0;
             ts2 = ts1[0 := ts1 ! i]
         in ts2[i := tmp])
      else ts1)"

text \<open>
  The block of \<^verbatim>\<open>OverrideConfig\<close> that sets \<^verbatim>\<open>conf.RecordTypes\<close>. Its argument is
  the slice returned by \<^verbatim>\<open>d.RecordTypes.Slice()\<close>; the set type lives outside the
  sources, so the order of that slice is whatever the caller of this function passes.
\<close>

definition OverrideConfig_RecordTypes :: "string list \<Rightarrow> string list" where
  "OverrideConfig_RecordTypes slice =
     (if length slice > 0 then fold record_type_iter [0..<length slice] slice else [''A''])"


subsection \<open>processDNSRequest\<close>

text \<open>
  What one resolution does that others can see, in order: the calls of the pool's methods,
  the send on the answer channel, and the deferred release of the semaphore.
  \<open>Acquire\<close> and \<open>Cancel\<close> are events of \<^verbatim>\<open>performResolutions\<close>.
\<close>

datatype event =
    Acquire
  | Release
  | Send "DNSRequest option"
  | Cancel
  | CallSubdomainToDomain string
  | CallGetWildcardType DNSRequest
  | CallResolve string string Priority
  | CallMatchesWildcard DNSRequest

text \<open>
  The loop over \<^verbatim>\<open>cfg.RecordTypes\<close>: the record types still to visit, the answers
  accumulated so far and the pool state go in; the accumulated answers, the calls made and
  the pool state come out.
\<close>

fun resolve_types :: "'p Pool \<Rightarrow> string \<Rightarrow> string list \<Rightarrow> DNSAnswer list \<Rightarrow> 'p
    \<Rightarrow> (DNSAnswer list \<times> event list) \<times> 'p" where
  "resolve_types pool name [] answers p = ((answers, []), p)"
| "resolve_types pool name (t # ts) answers p =
     (case Resolve pool p name t PriorityLow of
        ((a, err), p1) \<Rightarrow>
          (let answers1 = (if err = None then answers @ a else answers) in
           if t = ''CNAME'' \<and> length answers1 > 0 then
             ((answers1, [CallResolve name t PriorityLow]), p1)
           else
             (case resolve_types pool name ts answers1 p1 of
                ((answers2, calls), p2) \<Rightarrow>
                  ((answers2, CallResolve name t PriorityLow # calls), p2))))"


text \<open>
  \<^verbatim>\<open>processDNSRequest\<close>: the request pointer may be nil. The result is the trace of the
  goroutine and the pool state it leaves. The second operand of each \<^verbatim>\<open>||\<close> is
  evaluated only when the first is false, as in Go.
\<close>

definition processDNSRequest :: "Config \<Rightarrow> 'p Pool \<Rightarrow> DNSRequest option \<Rightarrow> 'p \<Rightarrow> event list \<times> 'p" where
  "processDNSRequest cfg pool req p =
     (case req of
        None \<Rightarrow> ([Send None, Release], p)
      | Some r \<Rightarrow>
          if req_Name r = [] then ([Send None, Release], p)
          else
            (let r1 = r\<lparr> req_Domain := SubdomainToDomain pool p (req_Name r) \<rparr>;
                 tr1 = [CallSubdomainToDomain (req_Name r)]
             in
             if req_Domain r1 = [] then (tr1 @ [Send None, Release], p)
             else if Blacklisted cfg (req_Name r1) then (tr1 @ [Send None, Release], p)
             else
               (case GetWildcardType pool p r1 of
                  (wt, p1) \<Rightarrow>
                    (let tr2 = tr1 @ [CallGetWildcardType r1] in
                     if wt = WildcardTypeDynamic then (tr2 @ [Send None, Release], p1)
                     else
                       (case resolve_types pool (req_Name r1) (RecordTypes cfg) [] p1 of
                          ((answers, calls), p2) \<Rightarrow>
                            (let r2 = r1\<lparr> req_Records := answers \<rparr>;
                                 tr3 = tr2 @ calls
                             in
                             if length (req_Records r2) = 0 then (tr3 @ [Send None, Release], p2)
                             else
                               (case MatchesWildcard pool p2 r2 of
                                  (m, p3) \<Rightarrow>
                                    if m then (tr3 @ [CallMatchesWildcard r2, Send None, Release], p3)
                                    else (tr3 @ [CallMatchesWildcard r2, Send (Some r2), Release], p3))))))))"

text \<open>Readings of a trace: the values sent, the record types resolved, the releases.\<close>

fun sent :: "event list \<Rightarrow> DNSRequest option list" where
  "sent [] = []"
| "sent (Send v # es) = v # sent es"
| "sent (e # es) = sent es"

fun resolved_types :: "event list \<Rightarrow> string list" where
  "resolved_types [] = []"
| "resolved_types (CallResolve name t pr # es) = t # resolved_types es"
| "resolved_types (e # es) = resolved_types es"

fun releases :: "event list \<Rightarrow> nat" where
  "releases [] = 0"
| "releases (Release # es) = Suc (releases es)"
| "releases (e # es) = releases es"

fun acquires :: "event list \<Rightarrow> nat" where
  "acquires [] = 0"
| "acquires (Acquire # es) = Suc (acquires es)"
| "acquires (e # es) = acquires es"

subsection \<open>processDNSAnswers\<close>

text \<open>
  The local variables \<^verbatim>\<open>first\<close>, \<^verbatim>\<open>active\<close> and \<^verbatim>\<open>i\<close> (here \<open>count\<close>) of
  \<^verbatim>\<open>processDNSAnswers\<close>, and the case its \<^verbatim>\<open>select\<close> takes in one iteration.
\<close>

record detector =
  first :: bool
  active :: bool
  count :: nat

datatype select_case = Done | Tick | ActivePulse | Answer "DNSRequest option"

text \<open>
  Why the function stopped: the loop condition \<^verbatim>\<open>i < l\<close> failed, \<^verbatim>\<open>done\<close> was
  closed, a tick found the flag clear, or the printing of an answer panicked.
\<close>

datatype stop = Finished | TimedOut | Drained | Panicked

datatype step_result = Continue detector | Return stop detector

text \<open>
  The printing of a received answer is modelled only as far as it can end the function:
  \<^verbatim>\<open>strings.Split(rec.Data, ",")[1]\<close>, evaluated for every record of type NS, panics
  when the data holds no comma. The text written to the terminal is left out.
\<close>

definition uint16 :: "int \<Rightarrow> int" where
  "uint16 x = x mod 65536"

definition TypeNS :: int where
  "TypeNS = 2"

definition print_panics :: "DNSRequest option \<Rightarrow> bool" where
  "print_panics req =
     (case req of
        None \<Rightarrow> False
      | Some r \<Rightarrow>
          length (req_Records r) \<noteq> 0 \<and>
          list_ex (\<lambda>rec. uint16 (ans_Type rec) = TypeNS \<and> CHR '','' \<notin> set (ans_Data rec))
            (req_Records r))"

text \<open>One iteration of the loop body, for the case the select took.\<close>

definition on_select :: "select_case \<Rightarrow> detector \<Rightarrow> step_result" where
  "on_select c d =
     (case c of
        Done \<Rightarrow> Return TimedOut d
      | Tick \<Rightarrow>
          if first d then Continue d
          else if active d then Continue (d\<lparr> active := False \<rparr>)
          else Return Drained d
      | ActivePulse \<Rightarrow> Continue (d\<lparr> active := True \<rparr>)
      | Answer req \<Rightarrow>
          (let d1 = d\<lparr> count := count d + 1, active := True, first := False \<rparr> in
           if print_panics req then Return Panicked d1 else Continue d1))"



definition detector_init :: detector where
  "detector_init = \<lparr> first = True, active = True, count = 0 \<rparr>"


subsection \<open>performResolutions\<close>

text \<open>
  \<^verbatim>\<open>performResolutions\<close> starts a producer goroutine that walks over
  \<^verbatim>\<open>cfg.ProvidedNames\<close>, one goroutine running \<^verbatim>\<open>processDNSRequest\<close> for every name
  it admits, a timer that closes \<^verbatim>\<open>done\<close> when \<^verbatim>\<open>cfg.Timeout\<close> is positive, and
  then runs \<^verbatim>\<open>processDNSAnswers\<close> itself. The state they share:
  whether \<^verbatim>\<open>done\<close> is closed, whether \<^verbatim>\<open>cancel()\<close> has been called, the names the
  producer has yet to visit and where its goroutine stands, the free tickets of
  the semaphore, the requests whose goroutine has been started and has not run yet, the
  contents of the channels \<^verbatim>\<open>answers\<close> and \<^verbatim>\<open>active\<close>, the detector, the state of the
  pool, and the trace of all events so far.
\<close>

datatype detector_status = Running detector | Exited stop detector

text \<open>
  The producer goroutine is at the \<^verbatim>\<open>select\<close> that opens an iteration of its loop, or
  in the \<^verbatim>\<open>default\<close> branch at \<^verbatim>\<open>Acquire(1)\<close> for the name at the head of the
  names yet to visit, or it has returned.
\<close>

datatype producer_pc = AtSelect | AtAcquire | ProducerReturned

record 'p run_state =
  done_closed :: bool
  cancelled :: bool
  pending :: "string list"
  producer :: producer_pc
  free_tickets :: nat
  in_flight :: "DNSRequest list"
  answers_chan :: "DNSRequest option list"
  active_chan :: nat
  det :: detector_status
  pool_state :: 'p
  trace :: "event list"

text \<open>The capacities given to \<^verbatim>\<open>make\<close> for the two buffered channels.\<close>

definition answers_capacity :: nat where
  "answers_capacity = 100000"

definition active_capacity :: nat where
  "active_capacity = 1000000"

text \<open>\<^verbatim>\<open>&requests.DNSRequest{Name: name}\<close>\<close>

definition new_request :: "string \<Rightarrow> DNSRequest" where
  "new_request name = \<lparr> req_Name = name, req_Domain = [], req_Records = [] \<rparr>"

text \<open>
  The state of the detector after one iteration: the loop condition \<^verbatim>\<open>i < l\<close> is
  tested before the next select.
\<close>

definition after_select :: "Config \<Rightarrow> step_result \<Rightarrow> detector_status" where
  "after_select cfg res =
     (case res of
        Return why d \<Rightarrow> Exited why d
      | Continue d \<Rightarrow>
          if count d < length (ProvidedNames cfg) then Running d else Exited Finished d)"

definition run_init :: "Config \<Rightarrow> 'p \<Rightarrow> 'p run_state" where
  "run_init cfg p0 =
     \<lparr> done_closed = False, cancelled = False,
       pending = ProvidedNames cfg, producer = AtSelect,
       free_tickets = MaxDNSQueries cfg, in_flight = [],
       answers_chan = [], active_chan = 0,
       det = after_select cfg (Continue detector_init),
       pool_state = p0, trace = [] \<rparr>"

text \<open>
  A run is driven by a list of scheduling choices. Each choice lets one party take one
  step; a choice whose party cannot move (a closed timer, an empty channel, no free
  ticket, a full channel) leaves the state as it is.
  \<^item> \<open>TimerFires\<close>: the function given to \<^verbatim>\<open>time.AfterFunc\<close> closes \<^verbatim>\<open>done\<close>.
  \<^item> \<open>ProducerMoves\<close>: the producer takes its next step: the select of an iteration
    (or the end of the loop), or the acquisition of a ticket and the start of a goroutine.
  \<^item> \<open>WorkerRuns k\<close>: the \<open>k\<close>-th started goroutine runs \<^verbatim>\<open>processDNSRequest\<close>
    to its end. Its calls, its send and its release happen in one step.
  \<^item> \<open>BusPulse\<close>: one of the two bus callbacks sends on \<^verbatim>\<open>active\<close>.
  \<^item> \<open>Selects r\<close>: the select of \<^verbatim>\<open>processDNSAnswers\<close> takes the case \<open>r\<close>.
  Nothing is assumed about what happens after the detector has exited: the other parties
  may still move.
\<close>

datatype ready = ReadyDone | ReadyTick | ReadyActive | ReadyAnswer

datatype choice = TimerFires | ProducerMoves | WorkerRuns nat | BusPulse | Selects ready

definition timer_fires :: "Config \<Rightarrow> 'p run_state \<Rightarrow> 'p run_state" where
  "timer_fires cfg s =
     (if Timeout cfg > 0 \<and> \<not> done_closed s then s\<lparr> done_closed := True \<rparr> else s)"

text \<open>
  The producer. At the \<^verbatim>\<open>select\<close>, the \<^verbatim>\<open>done\<close> case is taken whenever \<^verbatim>\<open>done\<close>
  is closed (a select takes its \<^verbatim>\<open>default\<close> only when no case is ready): the producer
  calls \<^verbatim>\<open>cancel()\<close> and returns. Otherwise it goes on to \<^verbatim>\<open>Acquire(1)\<close>, where it
  waits while no ticket is free and does not look at \<^verbatim>\<open>done\<close> again; with the ticket
  it starts the goroutine of the name and moves to the next iteration. When no name is
  left the loop ends and the goroutine returns.
\<close>

definition producer_moves :: "'p run_state \<Rightarrow> 'p run_state" where
  "producer_moves s =
     (case producer s of
        ProducerReturned \<Rightarrow> s
      | AtSelect \<Rightarrow>
          (case pending s of
             [] \<Rightarrow> s\<lparr> producer := ProducerReturned \<rparr>
           | name # rest \<Rightarrow>
               if done_closed s then
                 s\<lparr> cancelled := True, producer := ProducerReturned, trace := trace s @ [Cancel] \<rparr>
               else s\<lparr> producer := AtAcquire \<rparr>)
      | AtAcquire \<Rightarrow>
          (case pending s of
             [] \<Rightarrow> s
           | name # rest \<Rightarrow>
               if free_tickets s = 0 then s
               else
                 s\<lparr> free_tickets := free_tickets s - 1,
                     pending := rest,
                     producer := AtSelect,
                     in_flight := in_flight s @ [new_request name],
                     trace := trace s @ [Acquire] \<rparr>))"

definition worker_runs :: "Config \<Rightarrow> 'p Pool \<Rightarrow> nat \<Rightarrow> 'p run_state \<Rightarrow> 'p run_state" where
  "worker_runs cfg pool k s =
     (if k < length (in_flight s) \<and> length (answers_chan s) < answers_capacity then
        (case processDNSRequest cfg pool (Some (in_flight s ! k)) (pool_state s) of
           (tr, p1) \<Rightarrow>
             s\<lparr> in_flight := take k (in_flight s) @ drop (Suc k) (in_flight s),
                 answers_chan := answers_chan s @ sent tr,
                 free_tickets := free_tickets s + releases tr,
                 pool_state := p1,
                 trace := trace s @ tr \<rparr>)
      else s)"

definition bus_pulse :: "'p run_state \<Rightarrow> 'p run_state" where
  "bus_pulse s =
     (if active_chan s < active_capacity then s\<lparr> active_chan := active_chan s + 1 \<rparr> else s)"

definition detector_selects :: "Config \<Rightarrow> ready \<Rightarrow> 'p run_state \<Rightarrow> 'p run_state" where
  "detector_selects cfg r s =
     (case det s of
        Exited why d \<Rightarrow> s
      | Running d \<Rightarrow>
          (case r of
             ReadyDone \<Rightarrow>
               if done_closed s then s\<lparr> det := after_select cfg (on_select Done d) \<rparr> else s
           | ReadyTick \<Rightarrow> s\<lparr> det := after_select cfg (on_select Tick d) \<rparr>
           | ReadyActive \<Rightarrow>
               if active_chan s > 0 then
                 s\<lparr> active_chan := active_chan s - 1,
                     det := after_select cfg (on_select ActivePulse d) \<rparr>
               else s
           | ReadyAnswer \<Rightarrow>
               (case answers_chan s of
                  [] \<Rightarrow> s
                | v # vs \<Rightarrow>
                    s\<lparr> answers_chan := vs, det := after_select cfg (on_select (Answer v) d) \<rparr>)))"

fun step :: "Config \<Rightarrow> 'p Pool \<Rightarrow> 'p run_state \<Rightarrow> choice \<Rightarrow> 'p run_state" where
  "step cfg pool s TimerFires = timer_fires cfg s"
| "step cfg pool s ProducerMoves = producer_moves s"
| "step cfg pool s (WorkerRuns k) = worker_runs cfg pool k s"
| "step cfg pool s BusPulse = bus_pulse s"
| "step cfg pool s (Selects r) = detector_selects cfg r s"

definition performResolutions :: "Config \<Rightarrow> 'p Pool \<Rightarrow> 'p \<Rightarrow> choice list \<Rightarrow> 'p run_state" where
  "performResolutions cfg pool p0 choices = foldl (step cfg pool) (run_init cfg p0) choices"

definition detector_of :: "detector_status \<Rightarrow> detector" where
  "detector_of ds = (case ds of Running d \<Rightarrow> d | Exited why d \<Rightarrow> d)"

text \<open>
  What every run preserves: each admission is in flight or has sent its one value, each
  value sent has been followed by a release, each value sent is in the channel or has been
  counted by the detector, and the tickets are all free or held by a request in flight.
\<close>

definition run_inv :: "Config \<Rightarrow> 'p run_state \<Rightarrow> bool" where
  "run_inv cfg s =
     (acquires (trace s) = length (in_flight s) + length (sent (trace s)) \<and>
      releases (trace s) = length (sent (trace s)) \<and>
      length (sent (trace s)) = length (answers_chan s) + count (detector_of (det s)) \<and>
      free_tickets s + length (in_flight s) = MaxDNSQueries cfg \<and>
      acquires (trace s) + length (pending s) = length (ProvidedNames cfg))"

subsection \<open>A pool and a configuration to run the model on\<close>

text \<open>
  A pool whose state counts the calls of \<^verbatim>\<open>Resolve\<close>: the names under
  \<^verbatim>\<open>example.com\<close> are in scope, \<^verbatim>\<open>dynamic.org\<close> is a dynamic wildcard,
  \<^verbatim>\<open>www.example.com\<close> has a CNAME record, every name has an A record, and every other
  query fails.
\<close>

definition example_pool :: "nat Pool" where
  "example_pool =
     \<lparr> SubdomainToDomain = (\<lambda>p name.
         if name = ''www.example.com'' \<or> name = ''mail.example.com'' \<or> name = ''old.example.com''
         then ''example.com''
         else if name = ''a.dynamic.org'' then ''dynamic.org'' else []),
       GetWildcardType = (\<lambda>p r.
         (if req_Domain r = ''dynamic.org'' then WildcardTypeDynamic else WildcardTypeNone, p)),
       Resolve = (\<lambda>p name t pr.
         (if name = ''www.example.com'' \<and> t = ''CNAME''
            then ([\<lparr> ans_Type = 5, ans_Data = ''cdn.example.com'' \<rparr>], None)
          else if t = ''A'' then ([\<lparr> ans_Type = 1, ans_Data = ''10.0.0.1'' \<rparr>], None)
          else ([], Some ''no such record''), Suc p)),
       MatchesWildcard = (\<lambda>p r. (False, p)) \<rparr>"

definition example_cfg :: "string list \<Rightarrow> string list \<Rightarrow> int \<Rightarrow> Config" where
  "example_cfg names slice minutes =
     \<lparr> ProvidedNames = names,
       RecordTypes = OverrideConfig_RecordTypes slice,
       Timeout = minutes,
       MaxDNSQueries = 2,
       Blacklisted = (\<lambda>name. name = ''old.example.com'') \<rparr>"

section \<open>The WhoisXML data source (services/sources/whoisxml.go)\<close>

subsection \<open>The service object\<close>

text \<open>
  The \<^verbatim>\<open>WhoisXML\<close> struct. \<^verbatim>\<open>RateLimit\<close> is a \<^verbatim>\<open>time.Duration\<close>, a count of
  nanoseconds. The API key is a pointer that may be nil; the embedded
  \<^verbatim>\<open>services.BaseService\<close> is reached only through the channels read by
  \<^verbatim>\<open>processRequests\<close>, which are the events below.
\<close>

record WhoisXML =
  API :: "string option"
  SourceType :: string
  RateLimit :: int

definition Second :: int where
  "Second = 1000000000"

definition Minute :: int where
  "Minute = 60 * Second"

text \<open>\<^verbatim>\<open>requests.API\<close> is a constant of a package outside the sources; it is a parameter.\<close>

definition NewWhoisXML :: "string \<Rightarrow> WhoisXML" where
  "NewWhoisXML requests_API =
     \<lparr> API = None, SourceType = requests_API, RateLimit = 10 * Second \<rparr>"

subsection \<open>getReverseWhoisURL\<close>

text \<open>
  \<^verbatim>\<open>fmt.Sprintf(format)\<close> with no operands: a format without a percent sign is returned as
  it is. Formats with verbs are not needed by this file and are left out of the model
  (\<open>None\<close>).
\<close>

definition Sprintf0 :: "string \<Rightarrow> string option" where
  "Sprintf0 format = (if CHR ''%'' \<in> set format then None else Some format)"

definition getReverseWhoisURL :: "WhoisXML \<Rightarrow> string \<Rightarrow> string option" where
  "getReverseWhoisURL w domain =
     (let format = ''https://reverse-whois-api.whoisxmlapi.com/api/v2''
      in Sprintf0 format)"

subsection \<open>processRequests\<close>

text \<open>
  The loop of \<^verbatim>\<open>processRequests\<close> blocks in a \<^verbatim>\<open>select\<close> over four channels. One
  element of the input list is one case taken by the select, together with the time that
  passes around it: \<open>waited\<close> is the time spent blocked before the case is taken and the
  clock is read for the rate check, \<open>lag\<close> is the time between the end of the check (or
  of the sleep: \<^verbatim>\<open>time.Sleep\<close> pauses for at least its argument) and the first
  \<^verbatim>\<open>last = time.Now()\<close>, and \<open>took\<close> is the time between the two assignments to
  \<^verbatim>\<open>last\<close>, that is the time \<^verbatim>\<open>executeWhoisQuery\<close> takes. All three are natural
  numbers of nanoseconds: the clock never runs backwards (a value of \<^verbatim>\<open>time.Now()\<close>
  carries a monotonic reading, and \<^verbatim>\<open>Sub\<close> between two such values uses it).
\<close>

datatype wx_case = Quit | WhoisRequest string | AddrRequest | ASNRequest

record wx_select =
  taken :: wx_case
  waited :: nat
  lag :: nat
  took :: nat

text \<open>
  The state of the loop: the clock, the variable \<^verbatim>\<open>last\<close> (here \<open>last_t\<close>), and the
  log of the calls of \<^verbatim>\<open>executeWhoisQuery\<close> made so far, oldest first, each with the
  clock values assigned to \<^verbatim>\<open>last\<close> just before and just after the call.
\<close>

record wx_query =
  q_domain :: string
  q_start :: int
  q_finish :: int

record wx_state =
  now :: int
  last_t :: int
  queries :: "wx_query list"

datatype wx_outcome = Returned wx_state | Blocked wx_state

text \<open>\<^verbatim>\<open>t.Truncate(d)\<close> rounds down to a multiple of \<open>d\<close>.\<close>

definition Truncate :: "int \<Rightarrow> int \<Rightarrow> int" where
  "Truncate t d = (if d \<le> 0 then t else t - t mod d)"

definition whois_case :: "(string \<Rightarrow> bool) \<Rightarrow> WhoisXML \<Rightarrow> string \<Rightarrow> wx_select \<Rightarrow> wx_state \<Rightarrow> wx_state" where
  "whois_case IsDomainInScope w domain sel st =
     (let t0 = now st + int (waited sel) in
      if IsDomainInScope domain then
        (let t1 = (if t0 - last_t st < RateLimit w then t0 + RateLimit w else t0) + int (lag sel);
             t2 = t1 + int (took sel)
         in \<lparr> now = t2, last_t = t2,
              queries = queries st @ [\<lparr> q_domain = domain, q_start = t1, q_finish = t2 \<rparr>] \<rparr>)
      else st\<lparr> now := t0 \<rparr>)"

fun requests_loop :: "(string \<Rightarrow> bool) \<Rightarrow> WhoisXML \<Rightarrow> wx_select list \<Rightarrow> wx_state \<Rightarrow> wx_outcome" where
  "requests_loop IsDomainInScope w [] st = Blocked st"
| "requests_loop IsDomainInScope w (sel # sels) st =
     (case taken sel of
        Quit \<Rightarrow> Returned (st\<lparr> now := now st + int (waited sel) \<rparr>)
      | WhoisRequest domain \<Rightarrow>
          requests_loop IsDomainInScope w sels (whois_case IsDomainInScope w domain sel st)
      | AddrRequest \<Rightarrow> requests_loop IsDomainInScope w sels (st\<lparr> now := now st + int (waited sel) \<rparr>)
      | ASNRequest \<Rightarrow> requests_loop IsDomainInScope w sels (st\<lparr> now := now st + int (waited sel) \<rparr>))"

definition processRequests :: "(string \<Rightarrow> bool) \<Rightarrow> WhoisXML \<Rightarrow> int \<Rightarrow> wx_select list \<Rightarrow> wx_outcome" where
  "processRequests IsDomainInScope w start sels =
     requests_loop IsDomainInScope w sels
       \<lparr> now = start, last_t = Truncate start (10 * Minute), queries = [] \<rparr>"

definition outcome_state :: "wx_outcome \<Rightarrow> wx_state" where
  "outcome_state out = (case out of Returned st \<Rightarrow> st | Blocked st \<Rightarrow> st)"

text \<open>Consecutive entries of the log are at least \<open>d\<close> apart, finish to start.\<close>

fun spaced :: "int \<Rightarrow> wx_query list \<Rightarrow> bool" where
  "spaced d (q1 # q2 # qs) = (d \<le> q_start q2 - q_finish q1 \<and> spaced d (q2 # qs))"
| "spaced d qs = True"

text \<open>
  The invariant of the loop: \<^verbatim>\<open>last\<close> is not ahead of the clock, the log is spaced,
  every logged domain satisfies \<open>P\<close>, and \<^verbatim>\<open>last\<close> is the finish of the latest query.
\<close>

definition wx_inv :: "(string \<Rightarrow> bool) \<Rightarrow> int \<Rightarrow> wx_state \<Rightarrow> bool" where
  "wx_inv P d st =
     (last_t st \<le> now st \<and> spaced d (queries st) \<and>
      list_all (\<lambda>q. P (q_domain q)) (queries st) \<and>
      (queries st = [] \<or> q_finish (List.last (queries st)) = last_t st))"

section \<open>Properties of the dns subcommand\<close>

subsection \<open>Traces\<close>

lemma sent_append [simp]: "sent (xs @ ys) = sent xs @ sent ys"
  by (induction xs rule: sent.induct) auto

lemma resolved_types_append [simp]:
  "resolved_types (xs @ ys) = resolved_types xs @ resolved_types ys"
  by (induction xs rule: resolved_types.induct) auto

lemma releases_append [simp]: "releases (xs @ ys) = releases xs + releases ys"
  by (induction xs rule: releases.induct) auto

lemma acquires_append [simp]: "acquires (xs @ ys) = acquires xs + acquires ys"
  by (induction xs rule: acquires.induct) auto

lemma resolved_types_map [simp]:
  "resolved_types (map (\<lambda>t. CallResolve name t pr) ts) = ts"
  by (induction ts) auto

lemma sent_map [simp]: "sent (map (\<lambda>t. CallResolve name t pr) ts) = []"
  by (induction ts) auto

lemma releases_map [simp]: "releases (map (\<lambda>t. CallResolve name t pr) ts) = 0"
  by (induction ts) auto

lemma acquires_map [simp]: "acquires (map (\<lambda>t. CallResolve name t pr) ts) = 0"
  by (induction ts) auto

subsection \<open>The loop over the record types\<close>

text \<open>
  The calls of the loop are \<^verbatim>\<open>Resolve\<close> calls for the record types in their order,
  either for all of them or up to and including a \<^verbatim>\<open>CNAME\<close>.
\<close>

lemma resolve_types_calls:
  "resolve_types pool name ts answers p = ((answers', calls), p') \<Longrightarrow>
   calls = map (\<lambda>t. CallResolve name t PriorityLow) ts \<or>
   (\<exists>pre post. ts = pre @ ''CNAME'' # post \<and>
      calls = map (\<lambda>t. CallResolve name t PriorityLow) (pre @ [''CNAME'']))"
proof (induction ts arbitrary: answers p answers' calls p')
  case Nil
  then show ?case by simp
next
  case (Cons t ts)
  obtain a err p1 where R: "Resolve pool p name t PriorityLow = ((a, err), p1)"
    by (metis prod.exhaust)
  let ?answers1 = "if err = None then answers @ a else answers"
  show ?case
  proof (cases "t = ''CNAME'' \<and> length ?answers1 > 0")
    case True
    with Cons.prems R have "calls = [CallResolve name t PriorityLow]"
      by (simp split: if_splits)
    with True have "t # ts = [] @ ''CNAME'' # ts \<and>
        calls = map (\<lambda>t. CallResolve name t PriorityLow) ([] @ [''CNAME''])"
      by simp
    then show ?thesis by blast
  next
    case False
    obtain answers2 calls2 p2 where
      rec: "resolve_types pool name ts ?answers1 p1 = ((answers2, calls2), p2)"
      by (metis prod.exhaust)
    from Cons.prems R False rec have c: "calls = CallResolve name t PriorityLow # calls2"
      by (auto simp: Let_def split: if_splits)
    from Cons.IH [OF rec] show ?thesis
    proof
      assume "calls2 = map (\<lambda>t. CallResolve name t PriorityLow) ts"
      with c show ?thesis by simp
    next
      assume "\<exists>pre post. ts = pre @ ''CNAME'' # post \<and>
          calls2 = map (\<lambda>t. CallResolve name t PriorityLow) (pre @ [''CNAME''])"
      then obtain pre post where "ts = pre @ ''CNAME'' # post"
        "calls2 = map (\<lambda>t. CallResolve name t PriorityLow) (pre @ [''CNAME''])" by blast
      with c have "t # ts = (t # pre) @ ''CNAME'' # post \<and>
          calls = map (\<lambda>t. CallResolve name t PriorityLow) ((t # pre) @ [''CNAME''])"
        by simp
      then show ?thesis by blast
    qed
  qed
qed

lemma resolve_types_quiet:
  assumes "resolve_types pool name ts answers p = ((answers', calls), p')"
  shows "sent calls = [] \<and> releases calls = 0 \<and> acquires calls = 0"
  using resolve_types_calls [OF assms] by auto




subsection \<open>The shape of the trace of a resolution\<close>

lemma processDNSRequest_shape:
  "\<exists>pre v. fst (processDNSRequest cfg pool req p) = pre @ [Send v, Release] \<and>
     sent pre = [] \<and> releases pre = 0 \<and> acquires pre = 0"
proof (cases req)
  case None
  then show ?thesis by (simp add: processDNSRequest_def)
next
  case (Some r)
  let ?r1 = "r\<lparr> req_Domain := SubdomainToDomain pool p (req_Name r) \<rparr>"
  obtain wt p1 where W: "GetWildcardType pool p ?r1 = (wt, p1)" by (metis prod.exhaust)
  obtain answers calls p2 where
    R: "resolve_types pool (req_Name r) (RecordTypes cfg) [] p1 = ((answers, calls), p2)"
    by (metis prod.exhaust)
  obtain m p3 where M: "MatchesWildcard pool p2 (?r1\<lparr> req_Records := answers \<rparr>) = (m, p3)"
    by (metis prod.exhaust)
  note Q = resolve_types_quiet [OF R]
  show ?thesis
    using Some W R M Q by (simp add: processDNSRequest_def Let_def)
qed


subsection \<open>The record types set by OverrideConfig\<close>

lemma upper_A: "ToUpper ''A'' = ''A''"
  by (simp add: ToUpper_def upper_char_def)

lemma upper_CNAME: "ToUpper ''CNAME'' = ''CNAME''"
  by (simp add: ToUpper_def upper_char_def)

lemma override_A_CNAME: "OverrideConfig_RecordTypes [''A'', ''CNAME''] = [''CNAME'', ''A'']"
  by (simp add: OverrideConfig_RecordTypes_def record_type_iter_def upper_A upper_CNAME upt_rec)

lemma override_CNAME_A: "OverrideConfig_RecordTypes [''CNAME'', ''A''] = [''CNAME'', ''A'']"
  by (simp add: OverrideConfig_RecordTypes_def record_type_iter_def upper_A upper_CNAME upt_rec)

lemma override_A: "OverrideConfig_RecordTypes [''A''] = [''A'']"
  by (simp add: OverrideConfig_RecordTypes_def record_type_iter_def upper_A)

lemma override_CNAME: "OverrideConfig_RecordTypes [''CNAME''] = [''CNAME'']"
  by (simp add: OverrideConfig_RecordTypes_def record_type_iter_def upper_CNAME)

lemma record_type_iter_length [simp]: "length (record_type_iter i ts) = length ts"
  by (simp add: record_type_iter_def Let_def)








subsection \<open>The claims about one resolution\<close>

text \<open>
  Claim C3. When the derived domain of a name is empty, or the name is blacklisted, or the
  wildcard type of its domain is Dynamic, the resolution sends the nil marker and its
  trace holds no \<^verbatim>\<open>Resolve\<close> call: the three checks come before any query.
\<close>

theorem scoped_rejection_issues_no_query:
  assumes "SubdomainToDomain pool p (req_Name r) = [] \<or> Blacklisted cfg (req_Name r) \<or>
           fst (GetWildcardType pool p (r\<lparr> req_Domain := SubdomainToDomain pool p (req_Name r) \<rparr>))
             = WildcardTypeDynamic"
  shows "sent (fst (processDNSRequest cfg pool (Some r) p)) = [None] \<and>
         resolved_types (fst (processDNSRequest cfg pool (Some r) p)) = []"
  using assms by (auto simp: processDNSRequest_def Let_def split: prod.splits)

text \<open>
  On the example pool: a name out of scope, a blacklisted name and a name under a dynamic
  wildcard. The pool state, which counts the \<^verbatim>\<open>Resolve\<close> calls, stays at 0.
\<close>

theorem scoped_rejection_issues_no_query_witness:
  "SubdomainToDomain example_pool 0 (req_Name (new_request ''www.other.net'')) = [] \<and>
   processDNSRequest (example_cfg [] [''A''] 0) example_pool (Some (new_request ''www.other.net'')) 0
     = ([CallSubdomainToDomain ''www.other.net'', Send None, Release], 0) \<and>
   sent (fst (processDNSRequest (example_cfg [] [''A''] 0) example_pool
     (Some (new_request ''www.other.net'')) 0)) = [None] \<and>
   Blacklisted (example_cfg [] [''A''] 0) (req_Name (new_request ''old.example.com'')) \<and>
   processDNSRequest (example_cfg [] [''A''] 0) example_pool (Some (new_request ''old.example.com'')) 0
     = ([CallSubdomainToDomain ''old.example.com'', Send None, Release], 0) \<and>
   resolved_types (fst (processDNSRequest (example_cfg [] [''A''] 0) example_pool
     (Some (new_request ''old.example.com'')) 0)) = [] \<and>
   processDNSRequest (example_cfg [] [''A''] 0) example_pool (Some (new_request ''a.dynamic.org'')) 0
     = ([CallSubdomainToDomain ''a.dynamic.org'',
         CallGetWildcardType \<lparr> req_Name = ''a.dynamic.org'', req_Domain = ''dynamic.org'',
           req_Records = [] \<rparr>,
         Send None, Release], 0) \<and>
   resolved_types (fst (processDNSRequest (example_cfg [] [''A''] 0) example_pool
     (Some (new_request ''a.dynamic.org'')) 0)) = []"
  using scoped_rejection_issues_no_query [of example_pool 0 "new_request ''www.other.net''"
      "example_cfg [] [''A''] 0"]
    scoped_rejection_issues_no_query [of example_pool 0 "new_request ''old.example.com''"
      "example_cfg [] [''A''] 0"]
    scoped_rejection_issues_no_query [of example_pool 0 "new_request ''a.dynamic.org''"
      "example_cfg [] [''A''] 0"]
  by (simp add: processDNSRequest_def example_cfg_def example_pool_def new_request_def)

text \<open>
  Claim C4. When the loop reaches \<^verbatim>\<open>CNAME\<close> and \<^verbatim>\<open>Resolve\<close> returns a non-empty
  answer set for it without an error, the loop ends there: whatever record types remain
  (\<open>ts\<close>) are not queried. In particular, for a run configured with the record types A and
  CNAME (in either order of the slice that \<^verbatim>\<open>OverrideConfig\<close> receives), a name that
  passes the scope checks and resolves CNAME is queried for CNAME only, and the request
  sent (unless it matches the wildcard) carries exactly the CNAME answers.
\<close>

theorem cname_short_circuits:
  assumes "Resolve pool p1 name ''CNAME'' PriorityLow = ((a, None), p2)" and "a \<noteq> []"
  shows "resolve_types pool name (''CNAME'' # ts) acc p1 =
           ((acc @ a, [CallResolve name ''CNAME'' PriorityLow]), p2) \<and>
         ((slice = [''A'', ''CNAME''] \<or> slice = [''CNAME'', ''A'']) \<and>
          RecordTypes cfg = OverrideConfig_RecordTypes slice \<and>
          req_Name r = name \<and> name \<noteq> [] \<and> SubdomainToDomain pool p name \<noteq> [] \<and>
          \<not> Blacklisted cfg name \<and>
          GetWildcardType pool p (r\<lparr> req_Domain := SubdomainToDomain pool p name \<rparr>) = (wt, p1) \<and>
          wt \<noteq> WildcardTypeDynamic \<longrightarrow>
            resolved_types (fst (processDNSRequest cfg pool (Some r) p)) = [''CNAME''] \<and>
            sent (fst (processDNSRequest cfg pool (Some r) p)) =
              [if fst (MatchesWildcard pool p2
                    (r\<lparr> req_Domain := SubdomainToDomain pool p name, req_Records := a \<rparr>))
               then None
               else Some (r\<lparr> req_Domain := SubdomainToDomain pool p name, req_Records := a \<rparr>)])"
proof (intro conjI impI)
  show "resolve_types pool name (''CNAME'' # ts) acc p1 =
      ((acc @ a, [CallResolve name ''CNAME'' PriorityLow]), p2)"
    using assms by simp
next
  assume h: "(slice = [''A'', ''CNAME''] \<or> slice = [''CNAME'', ''A'']) \<and>
          RecordTypes cfg = OverrideConfig_RecordTypes slice \<and>
          req_Name r = name \<and> name \<noteq> [] \<and> SubdomainToDomain pool p name \<noteq> [] \<and>
          \<not> Blacklisted cfg name \<and>
          GetWildcardType pool p (r\<lparr> req_Domain := SubdomainToDomain pool p name \<rparr>) = (wt, p1) \<and>
          wt \<noteq> WildcardTypeDynamic"
  then have T: "RecordTypes cfg = [''CNAME'', ''A'']"
    using override_A_CNAME override_CNAME_A by auto
  have R: "resolve_types pool name (RecordTypes cfg) [] p1 =
      ((a, [CallResolve name ''CNAME'' PriorityLow]), p2)"
    using assms by (simp add: T)
  show "resolved_types (fst (processDNSRequest cfg pool (Some r) p)) = [''CNAME'']"
    using h R assms(2) by (auto simp: processDNSRequest_def Let_def split: prod.splits)
  show "sent (fst (processDNSRequest cfg pool (Some r) p)) =
      [if fst (MatchesWildcard pool p2
            (r\<lparr> req_Domain := SubdomainToDomain pool p name, req_Records := a \<rparr>))
       then None
       else Some (r\<lparr> req_Domain := SubdomainToDomain pool p name, req_Records := a \<rparr>)]"
    using h R assms(2) by (auto simp: processDNSRequest_def Let_def split: prod.splits)
qed

text \<open>
  The scenario of the specification on the example pool: the record types A and CNAME are
  configured, \<^verbatim>\<open>www.example.com\<close> has a CNAME record, the only query is the one for
  CNAME (the pool state counts one \<^verbatim>\<open>Resolve\<close> call), and the request sent carries the
  CNAME answer alone.
\<close>

theorem cname_short_circuits_witness:
  "Resolve example_pool 0 ''www.example.com'' ''CNAME'' PriorityLow =
     (([\<lparr> ans_Type = 5, ans_Data = ''cdn.example.com'' \<rparr>], None), 1) \<and>
   resolve_types example_pool ''www.example.com'' [''CNAME'', ''A''] [] 0 =
     (([\<lparr> ans_Type = 5, ans_Data = ''cdn.example.com'' \<rparr>],
       [CallResolve ''www.example.com'' ''CNAME'' PriorityLow]), 1) \<and>
   resolved_types (fst (processDNSRequest (example_cfg [] [''A'', ''CNAME''] 0) example_pool
       (Some (new_request ''www.example.com'')) 0)) = [''CNAME''] \<and>
   processDNSRequest (example_cfg [] [''A'', ''CNAME''] 0) example_pool
       (Some (new_request ''www.example.com'')) 0 =
     ([CallSubdomainToDomain ''www.example.com'',
       CallGetWildcardType \<lparr> req_Name = ''www.example.com'', req_Domain = ''example.com'',
         req_Records = [] \<rparr>,
       CallResolve ''www.example.com'' ''CNAME'' PriorityLow,
       CallMatchesWildcard \<lparr> req_Name = ''www.example.com'', req_Domain = ''example.com'',
         req_Records = [\<lparr> ans_Type = 5, ans_Data = ''cdn.example.com'' \<rparr>] \<rparr>,
       Send (Some \<lparr> req_Name = ''www.example.com'', req_Domain = ''example.com'',
         req_Records = [\<lparr> ans_Type = 5, ans_Data = ''cdn.example.com'' \<rparr>] \<rparr>),
       Release], 1)"
  using cname_short_circuits [of example_pool 0 "''www.example.com''"
      "[\<lparr> ans_Type = 5, ans_Data = ''cdn.example.com'' \<rparr>]" 1 "[''A'']" "[]"
      "[''A'', ''CNAME'']" "example_cfg [] [''A'', ''CNAME''] 0"
      "new_request ''www.example.com''" 0 WildcardTypeNone]
  by (simp add: processDNSRequest_def example_cfg_def example_pool_def new_request_def
      override_A_CNAME Let_def)




subsection \<open>The detector\<close>





subsection \<open>Runs of performResolutions\<close>

lemma count_after_select:
  "count (detector_of (after_select cfg (on_select c d))) =
     count d + (case c of Answer v \<Rightarrow> 1 | _ \<Rightarrow> 0)"
  by (cases c) (simp_all add: after_select_def on_select_def detector_of_def Let_def)

lemma run_inv_init: "run_inv cfg (run_init cfg p0)"
  by (simp add: run_inv_def run_init_def after_select_def detector_of_def detector_init_def)

lemma run_inv_timer: "run_inv cfg s \<Longrightarrow> run_inv cfg (timer_fires cfg s)"
  by (simp add: run_inv_def timer_fires_def)

lemma run_inv_bus: "run_inv cfg s \<Longrightarrow> run_inv cfg (bus_pulse s)"
  by (simp add: run_inv_def bus_pulse_def)

lemma run_inv_producer: "run_inv cfg s \<Longrightarrow> run_inv cfg (producer_moves s)"
  by (auto simp: run_inv_def producer_moves_def split: producer_pc.splits list.splits)

lemma run_inv_worker:
  assumes "run_inv cfg s"
  shows "run_inv cfg (worker_runs cfg pool k s)"
proof (cases "k < length (in_flight s) \<and> length (answers_chan s) < answers_capacity")
  case False
  with assms show ?thesis by (auto simp: worker_runs_def)
next
  case True
  obtain tr p1 where P: "processDNSRequest cfg pool (Some (in_flight s ! k)) (pool_state s) = (tr, p1)"
    by (metis prod.exhaust)
  from processDNSRequest_shape [of cfg pool "Some (in_flight s ! k)" "pool_state s"] P
  obtain pre v where tr: "tr = pre @ [Send v, Release]" "sent pre = []" "releases pre = 0"
    "acquires pre = 0" by auto
  from True obtain n where n: "length (in_flight s) = Suc n"
    by (cases "in_flight s") auto
  with True have len:
    "length (take k (in_flight s)) + length (drop (Suc k) (in_flight s)) = n"
    by auto
  have "worker_runs cfg pool k s =
      s\<lparr> in_flight := take k (in_flight s) @ drop (Suc k) (in_flight s),
         answers_chan := answers_chan s @ sent tr,
         free_tickets := free_tickets s + releases tr,
         pool_state := p1,
         trace := trace s @ tr \<rparr>"
    using True P by (simp add: worker_runs_def)
  then show ?thesis
    using assms tr n len unfolding run_inv_def by (simp del: length_take length_drop)
qed

lemma run_inv_detector:
  assumes "run_inv cfg s"
  shows "run_inv cfg (detector_selects cfg r s)"
proof (cases "det s")
  case (Exited why d)
  with assms show ?thesis by (simp add: detector_selects_def)
next
  case (Running d)
  then have d: "detector_of (det s) = d" by (simp add: detector_of_def)
  show ?thesis
  proof (cases r)
    case ReadyDone
    with assms Running d show ?thesis
      by (simp add: run_inv_def detector_selects_def count_after_select)
  next
    case ReadyTick
    with assms Running d show ?thesis
      by (simp add: run_inv_def detector_selects_def count_after_select)
  next
    case ReadyActive
    with assms Running d show ?thesis
      by (simp add: run_inv_def detector_selects_def count_after_select)
  next
    case ReadyAnswer
    with assms Running d show ?thesis
      by (cases "answers_chan s")
        (simp_all add: run_inv_def detector_selects_def count_after_select)
  qed
qed

lemma run_inv_step: "run_inv cfg s \<Longrightarrow> run_inv cfg (step cfg pool s c)"
  by (cases c) (simp_all add: run_inv_timer run_inv_bus run_inv_producer run_inv_worker
      run_inv_detector)

lemma run_inv_foldl: "run_inv cfg s \<Longrightarrow> run_inv cfg (foldl (step cfg pool) s choices)"
  by (induction choices arbitrary: s) (simp_all add: run_inv_step)

text \<open>\<^verbatim>\<open>cancel()\<close> is called only where \<^verbatim>\<open>done\<close> has been found closed.\<close>

lemma cancelled_step:
  "cancelled s \<longrightarrow> done_closed s \<Longrightarrow>
   cancelled (step cfg pool s c) \<longrightarrow> done_closed (step cfg pool s c)"
proof (cases c)
  case (Selects r)
  assume "cancelled s \<longrightarrow> done_closed s"
  with Selects show ?thesis
    by (cases r) (auto simp: detector_selects_def split: detector_status.splits list.splits)
next
  case (WorkerRuns k)
  assume "cancelled s \<longrightarrow> done_closed s"
  with WorkerRuns show ?thesis by (auto simp: worker_runs_def split: prod.splits)
qed (auto simp: timer_fires_def producer_moves_def bus_pulse_def
    split: producer_pc.splits list.splits)

lemma cancelled_foldl:
  "cancelled s \<longrightarrow> done_closed s \<Longrightarrow>
   cancelled (foldl (step cfg pool) s choices) \<longrightarrow> done_closed (foldl (step cfg pool) s choices)"
proof (induction choices arbitrary: s)
  case Nil
  then show ?case by simp
next
  case (Cons c choices)
  from cancelled_step [OF Cons.prems] have "cancelled (step cfg pool s c) \<longrightarrow> done_closed (step cfg pool s c)" .
  from Cons.IH [OF this] show ?case by simp
qed

lemma done_needs_timeout_step:
  "\<not> done_closed s \<Longrightarrow> Timeout cfg \<le> 0 \<Longrightarrow> \<not> done_closed (step cfg pool s c)"
proof (cases c)
  case (Selects r)
  assume "\<not> done_closed s" "Timeout cfg \<le> 0"
  with Selects show ?thesis
    by (cases r) (auto simp: detector_selects_def split: detector_status.splits list.splits)
next
  case (WorkerRuns k)
  assume "\<not> done_closed s" "Timeout cfg \<le> 0"
  with WorkerRuns show ?thesis by (auto simp: worker_runs_def split: prod.splits)
qed (auto simp: timer_fires_def producer_moves_def bus_pulse_def
    split: producer_pc.splits list.splits)

lemma done_needs_timeout_foldl:
  "\<not> done_closed s \<Longrightarrow> Timeout cfg \<le> 0 \<Longrightarrow> \<not> done_closed (foldl (step cfg pool) s choices)"
proof (induction choices arbitrary: s)
  case Nil
  then show ?case by simp
next
  case (Cons c choices)
  from done_needs_timeout_step [OF Cons.prems] Cons.IH Cons.prems(2) show ?case by simp
qed

lemma detector_never_cancels: "cancelled (detector_selects cfg r s) = cancelled s"
  by (cases r) (auto simp: detector_selects_def split: detector_status.splits list.splits)

text \<open>The detector leaves its loop as finished only with a full count.\<close>

lemma finished_step:
  assumes "\<forall>d. det s = Exited Finished d \<longrightarrow> length (ProvidedNames cfg) \<le> count d"
  shows "\<forall>d. det (step cfg pool s c) = Exited Finished d \<longrightarrow> length (ProvidedNames cfg) \<le> count d"
proof (cases c)
  case (Selects r)
  have after: "after_select cfg (on_select x d0) = Exited Finished d \<Longrightarrow>
      length (ProvidedNames cfg) \<le> count d" for x d0 d
    by (cases x) (auto simp: after_select_def on_select_def Let_def split: if_splits)
  show ?thesis
  proof (cases "det s")
    case (Exited why d0)
    with assms Selects show ?thesis by (simp add: detector_selects_def)
  next
    case (Running d0)
    with Selects after show ?thesis
      by (cases r) (auto simp: detector_selects_def split: list.splits)
  qed
next
  case (WorkerRuns k)
  with assms show ?thesis by (auto simp: worker_runs_def split: prod.splits)
qed (use assms in \<open>auto simp: timer_fires_def producer_moves_def bus_pulse_def
    split: producer_pc.splits list.splits\<close>)

lemma finished_foldl:
  "\<forall>d. det s = Exited Finished d \<longrightarrow> length (ProvidedNames cfg) \<le> count d \<Longrightarrow>
   \<forall>d. det (foldl (step cfg pool) s choices) = Exited Finished d \<longrightarrow>
     length (ProvidedNames cfg) \<le> count d"
proof (induction choices arbitrary: s)
  case Nil
  then show ?case by simp
next
  case (Cons c choices)
  from finished_step [OF Cons.prems]
  have "\<forall>d. det (step cfg pool s c) = Exited Finished d \<longrightarrow>
      length (ProvidedNames cfg) \<le> count d" .
  from Cons.IH [OF this] show ?case by simp
qed

lemma finished_init:
  "\<forall>d. det (run_init cfg p0) = Exited Finished d \<longrightarrow> length (ProvidedNames cfg) \<le> count d"
  by (simp add: run_init_def after_select_def detector_init_def)

lemmas run_defs =
  performResolutions_def run_init_def example_cfg_def example_pool_def new_request_def
  producer_moves_def worker_runs_def detector_selects_def timer_fires_def bus_pulse_def
  after_select_def on_select_def print_panics_def detector_init_def processDNSRequest_def
  answers_capacity_def active_capacity_def uint16_def TypeNS_def Let_def

subsection \<open>The claims about a run\<close>

text \<open>
  Claim C2 as stated fails in its last part. In the first run both names are admitted and
  both resolutions send their value and release their ticket, but the detector takes the
  second tick before the second value and returns as drained with a count of one: two
  admissions, one signal received, one left in the channel. In the second run the
  detector returns on \<^verbatim>\<open>done\<close> with one admission and a count of nought.
\<close>

theorem early_return_counts_fewer_counterexample:
  "performResolutions (example_cfg [''www.example.com'', ''mail.example.com''] [''A''] 0)
        example_pool 0
        [ProducerMoves, ProducerMoves, ProducerMoves, ProducerMoves, WorkerRuns 0,
         Selects ReadyAnswer, Selects ReadyTick, WorkerRuns 0, Selects ReadyTick] =
     \<lparr> done_closed = False, cancelled = False, pending = [], producer = AtSelect,
       free_tickets = 2, in_flight = [],
       answers_chan = [Some \<lparr> req_Name = ''mail.example.com'', req_Domain = ''example.com'',
            req_Records = [\<lparr> ans_Type = 1, ans_Data = ''10.0.0.1'' \<rparr>] \<rparr>],
       active_chan = 0,
       det = Exited Drained \<lparr> first = False, active = False, count = 1 \<rparr>,
       pool_state = 2,
       trace =
         [Acquire, Acquire,
          CallSubdomainToDomain ''www.example.com'',
          CallGetWildcardType \<lparr> req_Name = ''www.example.com'', req_Domain = ''example.com'',
            req_Records = [] \<rparr>,
          CallResolve ''www.example.com'' ''A'' PriorityLow,
          CallMatchesWildcard \<lparr> req_Name = ''www.example.com'', req_Domain = ''example.com'',
            req_Records = [\<lparr> ans_Type = 1, ans_Data = ''10.0.0.1'' \<rparr>] \<rparr>,
          Send (Some \<lparr> req_Name = ''www.example.com'', req_Domain = ''example.com'',
            req_Records = [\<lparr> ans_Type = 1, ans_Data = ''10.0.0.1'' \<rparr>] \<rparr>),
          Release,
          CallSubdomainToDomain ''mail.example.com'',
          CallGetWildcardType \<lparr> req_Name = ''mail.example.com'', req_Domain = ''example.com'',
            req_Records = [] \<rparr>,
          CallResolve ''mail.example.com'' ''A'' PriorityLow,
          CallMatchesWildcard \<lparr> req_Name = ''mail.example.com'', req_Domain = ''example.com'',
            req_Records = [\<lparr> ans_Type = 1, ans_Data = ''10.0.0.1'' \<rparr>] \<rparr>,
          Send (Some \<lparr> req_Name = ''mail.example.com'', req_Domain = ''example.com'',
            req_Records = [\<lparr> ans_Type = 1, ans_Data = ''10.0.0.1'' \<rparr>] \<rparr>),
          Release] \<rparr> \<and>
   acquires (trace (performResolutions
        (example_cfg [''www.example.com'', ''mail.example.com''] [''A''] 0) example_pool 0
        [ProducerMoves, ProducerMoves, ProducerMoves, ProducerMoves, WorkerRuns 0,
         Selects ReadyAnswer, Selects ReadyTick, WorkerRuns 0, Selects ReadyTick])) = 2 \<and>
   count (detector_of (det (performResolutions
        (example_cfg [''www.example.com'', ''mail.example.com''] [''A''] 0) example_pool 0
        [ProducerMoves, ProducerMoves, ProducerMoves, ProducerMoves, WorkerRuns 0,
         Selects ReadyAnswer, Selects ReadyTick, WorkerRuns 0, Selects ReadyTick]))) = 1 \<and>
   acquires (trace (performResolutions (example_cfg [''www.example.com''] [''A''] 1)
        example_pool 0 [ProducerMoves, ProducerMoves, TimerFires, Selects ReadyDone])) = 1 \<and>
   det (performResolutions (example_cfg [''www.example.com''] [''A''] 1)
        example_pool 0 [ProducerMoves, ProducerMoves, TimerFires, Selects ReadyDone]) =
     Exited TimedOut \<lparr> first = True, active = True, count = 0 \<rparr>"
  by (simp add: run_defs override_A detector_of_def)

text \<open>
  Claim C2, amended. Every exit path of a resolution ends with exactly one send on the
  answer channel followed by the release of the ticket, and has neither before that. So in
  every state that a run can reach, the admissions (\<open>Acquire\<close> events) are the
  resolutions in flight plus the values sent, the releases are as many as the values sent,
  the values sent are those still in the channel plus those the detector has counted, and
  every ticket is free or held by a resolution in flight. The detector's count equals the
  admissions when it leaves its loop because the count is full: then it has counted one
  value for every admission, every name has been admitted, and every ticket is free
  again. When it returns earlier, by drain or on \<^verbatim>\<open>done\<close>, its count may be smaller.
  (The resolution of a name is one step of a run, so the states of a run are those
  between resolutions.)
\<close>

theorem one_signal_per_admission:
  "(\<exists>pre v. fst (processDNSRequest cfg pool req p) = pre @ [Send v, Release] \<and>
      sent pre = [] \<and> releases pre = 0 \<and> acquires pre = 0) \<and>
   run_inv cfg (performResolutions cfg pool p0 choices) \<and>
   (det (performResolutions cfg pool p0 choices) = Exited Finished d \<longrightarrow>
      count d = length (ProvidedNames cfg) \<and>
      acquires (trace (performResolutions cfg pool p0 choices)) = count d \<and>
      in_flight (performResolutions cfg pool p0 choices) = [] \<and>
      answers_chan (performResolutions cfg pool p0 choices) = [] \<and>
      pending (performResolutions cfg pool p0 choices) = [] \<and>
      free_tickets (performResolutions cfg pool p0 choices) = MaxDNSQueries cfg)"
proof (intro conjI impI)
  let ?s = "performResolutions cfg pool p0 choices"
  show "\<exists>pre v. fst (processDNSRequest cfg pool req p) = pre @ [Send v, Release] \<and>
      sent pre = [] \<and> releases pre = 0 \<and> acquires pre = 0"
    by (rule processDNSRequest_shape)
  show inv: "run_inv cfg ?s"
    using run_inv_foldl [OF run_inv_init, of cfg pool p0 choices]
    by (simp add: performResolutions_def)
  assume fin: "det ?s = Exited Finished d"
  have "length (ProvidedNames cfg) \<le> count d"
    using finished_foldl [OF finished_init, of cfg pool p0 choices] fin
    by (simp add: performResolutions_def)
  moreover from fin have d: "detector_of (det ?s) = d" by (simp add: detector_of_def)
  moreover have "acquires (trace ?s) = length (in_flight ?s) + length (sent (trace ?s))"
    and "length (sent (trace ?s)) = length (answers_chan ?s) + count d"
    and "free_tickets ?s + length (in_flight ?s) = MaxDNSQueries cfg"
    and "acquires (trace ?s) + length (pending ?s) = length (ProvidedNames cfg)"
    using inv d by (simp_all add: run_inv_def)
  ultimately have all: "count d = length (ProvidedNames cfg) \<and> acquires (trace ?s) = count d \<and>
      length (in_flight ?s) = 0 \<and> length (answers_chan ?s) = 0 \<and> length (pending ?s) = 0 \<and>
      free_tickets ?s = MaxDNSQueries cfg"
    by linarith
  from all show "count d = length (ProvidedNames cfg)" by simp
  from all show "acquires (trace ?s) = count d" by simp
  from all show "in_flight ?s = []" by simp
  from all show "answers_chan ?s = []" by simp
  from all show "pending ?s = []" by simp
  from all show "free_tickets ?s = MaxDNSQueries cfg" by simp
qed

text \<open>
  A complete run over two names: both are admitted, both resolutions send one value and
  release, and the detector leaves its loop with a count of two.
\<close>

theorem one_signal_per_admission_witness:
  "run_inv (example_cfg [''www.example.com'', ''a.dynamic.org''] [''A''] 0)
     (performResolutions (example_cfg [''www.example.com'', ''a.dynamic.org''] [''A''] 0)
        example_pool 0
        [ProducerMoves, ProducerMoves, ProducerMoves, ProducerMoves, ProducerMoves,
         WorkerRuns 1, WorkerRuns 0, Selects ReadyAnswer, Selects ReadyAnswer]) \<and>
   performResolutions (example_cfg [''www.example.com'', ''a.dynamic.org''] [''A''] 0)
        example_pool 0
        [ProducerMoves, ProducerMoves, ProducerMoves, ProducerMoves, ProducerMoves,
         WorkerRuns 1, WorkerRuns 0, Selects ReadyAnswer, Selects ReadyAnswer] =
     \<lparr> done_closed = False, cancelled = False, pending = [], producer = ProducerReturned,
       free_tickets = 2, in_flight = [], answers_chan = [], active_chan = 0,
       det = Exited Finished \<lparr> first = False, active = True, count = 2 \<rparr>,
       pool_state = 1,
       trace =
         [Acquire, Acquire,
          CallSubdomainToDomain ''a.dynamic.org'',
          CallGetWildcardType \<lparr> req_Name = ''a.dynamic.org'', req_Domain = ''dynamic.org'',
            req_Records = [] \<rparr>,
          Send None, Release,
          CallSubdomainToDomain ''www.example.com'',
          CallGetWildcardType \<lparr> req_Name = ''www.example.com'', req_Domain = ''example.com'',
            req_Records = [] \<rparr>,
          CallResolve ''www.example.com'' ''A'' PriorityLow,
          CallMatchesWildcard \<lparr> req_Name = ''www.example.com'', req_Domain = ''example.com'',
            req_Records = [\<lparr> ans_Type = 1, ans_Data = ''10.0.0.1'' \<rparr>] \<rparr>,
          Send (Some \<lparr> req_Name = ''www.example.com'', req_Domain = ''example.com'',
            req_Records = [\<lparr> ans_Type = 1, ans_Data = ''10.0.0.1'' \<rparr>] \<rparr>),
          Release] \<rparr>"
  using one_signal_per_admission [of "example_cfg [''www.example.com'', ''a.dynamic.org''] [''A''] 0"
      example_pool "None" 0 0
      "[ProducerMoves, ProducerMoves, ProducerMoves, ProducerMoves, ProducerMoves,
        WorkerRuns 1, WorkerRuns 0, Selects ReadyAnswer, Selects ReadyAnswer]"
      "\<lparr> first = False, active = True, count = 2 \<rparr>"]
  by (simp add: run_defs override_A)

text \<open>
  Claim C6 as stated fails. In the first run no timeout is configured: the detector
  receives one answer, two ticks pass, it concludes that the run is drained and returns,
  while the resolution of the second name is still in flight and \<^verbatim>\<open>cancel()\<close> has not
  been called. In the second run the timer fires while the producer is at the
  acquisition of the ticket for the only name: the producer admits the name and leaves
  its loop, the detector returns on \<^verbatim>\<open>done\<close>, and again a resolution is in flight and
  the context is not cancelled.
\<close>

theorem run_ends_without_cancel_counterexample:
  "performResolutions (example_cfg [''www.example.com'', ''mail.example.com''] [''A''] 0)
        example_pool 0
        [ProducerMoves, ProducerMoves, ProducerMoves, ProducerMoves, WorkerRuns 0,
         Selects ReadyAnswer, Selects ReadyTick, Selects ReadyTick] =
     \<lparr> done_closed = False, cancelled = False, pending = [], producer = AtSelect,
       free_tickets = 1, in_flight = [new_request ''mail.example.com''],
       answers_chan = [], active_chan = 0,
       det = Exited Drained \<lparr> first = False, active = False, count = 1 \<rparr>,
       pool_state = 1,
       trace =
         [Acquire, Acquire,
          CallSubdomainToDomain ''www.example.com'',
          CallGetWildcardType \<lparr> req_Name = ''www.example.com'', req_Domain = ''example.com'',
            req_Records = [] \<rparr>,
          CallResolve ''www.example.com'' ''A'' PriorityLow,
          CallMatchesWildcard \<lparr> req_Name = ''www.example.com'', req_Domain = ''example.com'',
            req_Records = [\<lparr> ans_Type = 1, ans_Data = ''10.0.0.1'' \<rparr>] \<rparr>,
          Send (Some \<lparr> req_Name = ''www.example.com'', req_Domain = ''example.com'',
            req_Records = [\<lparr> ans_Type = 1, ans_Data = ''10.0.0.1'' \<rparr>] \<rparr>),
          Release] \<rparr> \<and>
   performResolutions (example_cfg [''www.example.com''] [''A''] 1) example_pool 0
        [ProducerMoves, TimerFires, ProducerMoves, ProducerMoves, Selects ReadyDone] =
     \<lparr> done_closed = True, cancelled = False, pending = [], producer = ProducerReturned,
       free_tickets = 1, in_flight = [new_request ''www.example.com''],
       answers_chan = [], active_chan = 0,
       det = Exited TimedOut \<lparr> first = True, active = True, count = 0 \<rparr>,
       pool_state = 0, trace = [Acquire] \<rparr>"
  by (simp add: run_defs override_A)

text \<open>
  Claim C6, amended. \<^verbatim>\<open>cancel()\<close> is called in one place only, by the producer when
  the select of an iteration finds \<^verbatim>\<open>done\<close> closed, which needs a name still to be
  admitted. So in every run the context
  is cancelled only after \<^verbatim>\<open>done\<close> was closed, and never when no timeout is configured;
  no step of the detector, the drain included, cancels it; and a producer that stands at
  the select of an iteration when \<^verbatim>\<open>done\<close> is closed does cancel it with its next step.
\<close>

theorem cancel_only_by_producer_on_timeout:
  "(cancelled (performResolutions cfg pool p0 choices) \<longrightarrow>
      done_closed (performResolutions cfg pool p0 choices)) \<and>
   (Timeout cfg \<le> 0 \<longrightarrow> \<not> cancelled (performResolutions cfg pool p0 choices)) \<and>
   cancelled (detector_selects cfg r s) = cancelled s \<and>
   (done_closed s \<and> producer s = AtSelect \<and> pending s \<noteq> [] \<longrightarrow>
      cancelled (step cfg pool s ProducerMoves))"
proof (intro conjI impI)
  have init: "cancelled (run_init cfg p0) \<longrightarrow> done_closed (run_init cfg p0)"
    by (simp add: run_init_def)
  from cancelled_foldl [OF init]
  show c: "cancelled (performResolutions cfg pool p0 choices) \<Longrightarrow>
      done_closed (performResolutions cfg pool p0 choices)"
    by (simp add: performResolutions_def)
  show "\<not> cancelled (performResolutions cfg pool p0 choices)" if t: "Timeout cfg \<le> 0"
  proof
    assume "cancelled (performResolutions cfg pool p0 choices)"
    then have "done_closed (performResolutions cfg pool p0 choices)" by (rule c)
    moreover have "\<not> done_closed (run_init cfg p0)" by (simp add: run_init_def)
    from done_needs_timeout_foldl [OF this t]
    have "\<not> done_closed (performResolutions cfg pool p0 choices)"
      by (simp add: performResolutions_def)
    ultimately show False by simp
  qed
  show "cancelled (detector_selects cfg r s) = cancelled s"
    by (rule detector_never_cancels)
  show "cancelled (step cfg pool s ProducerMoves)"
    if "done_closed s \<and> producer s = AtSelect \<and> pending s \<noteq> []"
    using that by (auto simp: producer_moves_def split: list.splits)
qed

text \<open>
  A run in which the timer fires while the producer still has a name to admit: the
  producer's next step calls \<^verbatim>\<open>cancel()\<close> and returns, and the second name is never
  admitted.
\<close>

theorem cancel_only_by_producer_on_timeout_witness:
  "performResolutions (example_cfg [''www.example.com'', ''mail.example.com''] [''A''] 1)
        example_pool 0 [ProducerMoves, ProducerMoves, TimerFires, ProducerMoves] =
     \<lparr> done_closed = True, cancelled = True, pending = [''mail.example.com''],
       producer = ProducerReturned, free_tickets = 1,
       in_flight = [new_request ''www.example.com''], answers_chan = [], active_chan = 0,
       det = Running \<lparr> first = True, active = True, count = 0 \<rparr>,
       pool_state = 0, trace = [Acquire, Cancel] \<rparr> \<and>
   Timeout (example_cfg [''www.example.com''] [''A''] 0) \<le> 0 \<and>
   \<not> cancelled (performResolutions (example_cfg [''www.example.com''] [''A''] 0) example_pool 0
        [ProducerMoves, TimerFires, ProducerMoves, ProducerMoves, WorkerRuns 0,
         Selects ReadyDone])"
  using cancel_only_by_producer_on_timeout
      [of "example_cfg [''www.example.com'', ''mail.example.com''] [''A''] 1" example_pool 0
        "[ProducerMoves, ProducerMoves, TimerFires, ProducerMoves]" ReadyTick
        "performResolutions (example_cfg [''www.example.com'', ''mail.example.com''] [''A''] 1)
           example_pool 0 [ProducerMoves, ProducerMoves, TimerFires]"]
    cancel_only_by_producer_on_timeout
      [of "example_cfg [''www.example.com''] [''A''] 0" example_pool 0
        "[ProducerMoves, TimerFires, ProducerMoves, ProducerMoves, WorkerRuns 0,
          Selects ReadyDone]" ReadyTick
        "run_init (example_cfg [''www.example.com''] [''A''] 0) 0"]
  by (simp add: run_defs override_A)

text \<open>
  Claim C7. An error of \<^verbatim>\<open>Resolve\<close> for one record type adds nothing to the accumulated
  answers and the loop goes on as it would after an empty answer. A name that passes the
  scope checks yields the nil marker when its accumulated answers are empty or match the
  wildcard, and the full request otherwise. Whatever the pool returns, the resolution
  ends with its one send; and the step of a run in which a resolution runs leaves the
  cancellation, the \<^verbatim>\<open>done\<close> channel, the detector, the names still to admit and the
  other resolutions in flight as they were.
\<close>

theorem resolve_errors_absorbed:
  "(Resolve pool q name t PriorityLow = ((a, Some e), q1) \<longrightarrow>
      resolve_types pool name (t # ts) acc q =
        (if t = ''CNAME'' \<and> acc \<noteq> [] then ((acc, [CallResolve name t PriorityLow]), q1)
         else (case resolve_types pool name ts acc q1 of
                 ((res, calls), q2) \<Rightarrow> ((res, CallResolve name t PriorityLow # calls), q2)))) \<and>
   (req_Name r \<noteq> [] \<and> SubdomainToDomain pool p (req_Name r) \<noteq> [] \<and>
    \<not> Blacklisted cfg (req_Name r) \<and>
    GetWildcardType pool p (r\<lparr> req_Domain := SubdomainToDomain pool p (req_Name r) \<rparr>) = (wt, p1) \<and>
    wt \<noteq> WildcardTypeDynamic \<and>
    resolve_types pool (req_Name r) (RecordTypes cfg) [] p1 = ((answers, calls), p2) \<longrightarrow>
      sent (fst (processDNSRequest cfg pool (Some r) p)) =
        [if answers = [] \<or>
            fst (MatchesWildcard pool p2
              (r\<lparr> req_Domain := SubdomainToDomain pool p (req_Name r), req_Records := answers \<rparr>))
         then None
         else Some (r\<lparr> req_Domain := SubdomainToDomain pool p (req_Name r),
                      req_Records := answers \<rparr>)]) \<and>
   (\<exists>pre v. fst (processDNSRequest cfg pool req p) = pre @ [Send v, Release] \<and> sent pre = []) \<and>
   cancelled (worker_runs cfg pool k s) = cancelled s \<and>
   done_closed (worker_runs cfg pool k s) = done_closed s \<and>
   det (worker_runs cfg pool k s) = det s \<and>
   pending (worker_runs cfg pool k s) = pending s \<and>
   (in_flight (worker_runs cfg pool k s) = in_flight s \<or>
    in_flight (worker_runs cfg pool k s) = take k (in_flight s) @ drop (Suc k) (in_flight s))"
proof (intro conjI impI)
  show "resolve_types pool name (t # ts) acc q =
        (if t = ''CNAME'' \<and> acc \<noteq> [] then ((acc, [CallResolve name t PriorityLow]), q1)
         else (case resolve_types pool name ts acc q1 of
                 ((res, calls), q2) \<Rightarrow> ((res, CallResolve name t PriorityLow # calls), q2)))"
    if "Resolve pool q name t PriorityLow = ((a, Some e), q1)"
    using that by simp
  show "sent (fst (processDNSRequest cfg pool (Some r) p)) =
        [if answers = [] \<or>
            fst (MatchesWildcard pool p2
              (r\<lparr> req_Domain := SubdomainToDomain pool p (req_Name r), req_Records := answers \<rparr>))
         then None
         else Some (r\<lparr> req_Domain := SubdomainToDomain pool p (req_Name r),
                      req_Records := answers \<rparr>)]"
    if h: "req_Name r \<noteq> [] \<and> SubdomainToDomain pool p (req_Name r) \<noteq> [] \<and>
      \<not> Blacklisted cfg (req_Name r) \<and>
      GetWildcardType pool p (r\<lparr> req_Domain := SubdomainToDomain pool p (req_Name r) \<rparr>) = (wt, p1) \<and>
      wt \<noteq> WildcardTypeDynamic \<and>
      resolve_types pool (req_Name r) (RecordTypes cfg) [] p1 = ((answers, calls), p2)"
  proof -
    from h have R: "resolve_types pool (req_Name r) (RecordTypes cfg) [] p1 = ((answers, calls), p2)"
      by simp
    show ?thesis
      using h resolve_types_quiet [OF R]
      by (auto simp: processDNSRequest_def Let_def split: prod.splits)
  qed
  show "\<exists>pre v. fst (processDNSRequest cfg pool req p) = pre @ [Send v, Release] \<and> sent pre = []"
    using processDNSRequest_shape [of cfg pool req p] by blast
qed (auto simp: worker_runs_def split: prod.splits)

text \<open>
  On the example pool: \<^verbatim>\<open>mail.example.com\<close> has no CNAME record, the error of that query
  is absorbed and the A record found next is sent; with MX as the only record type, the
  one query fails and the nil marker is sent.
\<close>

theorem resolve_errors_absorbed_witness:
  "Resolve example_pool 0 ''mail.example.com'' ''CNAME'' PriorityLow =
     (([], Some ''no such record''), 1) \<and>
   resolve_types example_pool ''mail.example.com'' [''CNAME'', ''A''] [] 0 =
     (([\<lparr> ans_Type = 1, ans_Data = ''10.0.0.1'' \<rparr>],
       [CallResolve ''mail.example.com'' ''CNAME'' PriorityLow,
        CallResolve ''mail.example.com'' ''A'' PriorityLow]), 2) \<and>
   sent (fst (processDNSRequest (example_cfg [] [''A'', ''CNAME''] 0) example_pool
       (Some (new_request ''mail.example.com'')) 0)) =
     [Some \<lparr> req_Name = ''mail.example.com'', req_Domain = ''example.com'',
        req_Records = [\<lparr> ans_Type = 1, ans_Data = ''10.0.0.1'' \<rparr>] \<rparr>] \<and>
   processDNSRequest (example_cfg [] [''CNAME''] 0) example_pool
       (Some (new_request ''mail.example.com'')) 0 =
     ([CallSubdomainToDomain ''mail.example.com'',
       CallGetWildcardType \<lparr> req_Name = ''mail.example.com'', req_Domain = ''example.com'',
         req_Records = [] \<rparr>,
       CallResolve ''mail.example.com'' ''CNAME'' PriorityLow,
       Send None, Release], 1)"
  using resolve_errors_absorbed [of example_pool 0 "''mail.example.com''" "''CNAME''" "[]"
      "''no such record''" 1 "[''A'']" "[]" "new_request ''mail.example.com''" 0
      "example_cfg [] [''A'', ''CNAME''] 0" WildcardTypeNone 0
      "[\<lparr> ans_Type = 1, ans_Data = ''10.0.0.1'' \<rparr>]"
      "[CallResolve ''mail.example.com'' ''CNAME'' PriorityLow,
        CallResolve ''mail.example.com'' ''A'' PriorityLow]" 2]
  by (simp add: run_defs override_A_CNAME override_CNAME)

text \<open>
  Claim C8 as stated fails. For a list of names that holds the empty name, the producer's
  first iteration takes a ticket and starts the resolution; only that resolution drops
  the name. The \<open>Acquire\<close> comes first in the trace.
\<close>

theorem empty_name_takes_ticket_counterexample:
  "performResolutions (example_cfg [[]] [''A''] 0) example_pool 0
     [ProducerMoves, ProducerMoves] =
     \<lparr> done_closed = False, cancelled = False, pending = [], producer = AtSelect,
       free_tickets = 1, in_flight = [new_request []], answers_chan = [], active_chan = 0,
       det = Running \<lparr> first = True, active = True, count = 0 \<rparr>,
       pool_state = 0, trace = [Acquire] \<rparr> \<and>
   trace (performResolutions (example_cfg [[]] [''A''] 0) example_pool 0
     [ProducerMoves, ProducerMoves, WorkerRuns 0]) = [Acquire, Send None, Release]"
  by (simp add: run_defs override_A)

text \<open>
  Claim C8, amended. An empty name is admitted like any other: when a ticket is free and
  \<^verbatim>\<open>done\<close> is open, the producer takes a ticket for it and starts its resolution. The
  resolution (of an empty name, or of a nil request) then does nothing but send the nil
  marker and release the ticket, without any call of the pool; and the detector counts a
  nil marker as it counts any answer. No other check of the form of a name is made.
\<close>

theorem empty_name_admitted_then_dropped:
  "(producer s = AtSelect \<and> pending s = [] # rest \<and> \<not> done_closed s \<and>
    0 < free_tickets s \<longrightarrow>
      producer_moves (producer_moves s) =
        s\<lparr> free_tickets := free_tickets s - 1, pending := rest,
            in_flight := in_flight s @ [new_request []], trace := trace s @ [Acquire] \<rparr>) \<and>
   processDNSRequest cfg pool (Some (new_request [])) p = ([Send None, Release], p) \<and>
   processDNSRequest cfg pool None p = ([Send None, Release], p) \<and>
   on_select (Answer None) d =
     Continue (d\<lparr> count := count d + 1, active := True, first := False \<rparr>)"
  by (auto simp: producer_moves_def processDNSRequest_def new_request_def on_select_def
      print_panics_def Let_def)

theorem empty_name_admitted_then_dropped_witness:
  "producer (run_init (example_cfg [[], ''www.example.com''] [''A''] 0) (0::nat)) = AtSelect \<and>
   pending (run_init (example_cfg [[], ''www.example.com''] [''A''] 0) (0::nat)) =
     [] # [''www.example.com''] \<and>
   0 < free_tickets (run_init (example_cfg [[], ''www.example.com''] [''A''] 0) (0::nat)) \<and>
   performResolutions (example_cfg [[], ''www.example.com''] [''A''] 0) example_pool 0
       [ProducerMoves, ProducerMoves, WorkerRuns 0, Selects ReadyAnswer] =
     \<lparr> done_closed = False, cancelled = False, pending = [''www.example.com''],
       producer = AtSelect, free_tickets = 2, in_flight = [], answers_chan = [],
       active_chan = 0,
       det = Running \<lparr> first = False, active = True, count = 1 \<rparr>,
       pool_state = 0, trace = [Acquire, Send None, Release] \<rparr>"
  using empty_name_admitted_then_dropped
      [of "run_init (example_cfg [[], ''www.example.com''] [''A''] 0) (0::nat)"
        "[''www.example.com'']" "example_cfg [[], ''www.example.com''] [''A''] 0" example_pool 0
        detector_init]
  by (simp add: run_defs override_A)

section \<open>Properties of the WhoisXML data source\<close>

lemma Sprintf0_plain: "CHR ''%'' \<notin> set format \<Longrightarrow> Sprintf0 format = Some format"
  by (simp add: Sprintf0_def)

text \<open>
  Claim C10. For every service object and every domain, \<^verbatim>\<open>getReverseWhoisURL\<close> returns the
  one constant URL: the domain has no influence on the result.
\<close>

theorem getReverseWhoisURL_constant:
  "getReverseWhoisURL w domain = Some ''https://reverse-whois-api.whoisxmlapi.com/api/v2''"
  by (simp add: getReverseWhoisURL_def Sprintf0_def)

lemma spaced_snoc:
  "spaced d (qs @ [q]) =
     (spaced d qs \<and> (qs = [] \<or> d \<le> q_start q - q_finish (List.last qs)))"
  by (induction d qs rule: spaced.induct) auto

lemma whois_case_inv:
  "wx_inv P (RateLimit w) st \<Longrightarrow> wx_inv P (RateLimit w) (whois_case P w domain sel st)"
  by (auto simp: wx_inv_def whois_case_def Let_def spaced_snoc)

lemma requests_loop_inv:
  "wx_inv P (RateLimit w) st \<Longrightarrow>
   wx_inv P (RateLimit w) (outcome_state (requests_loop P w sels st))"
proof (induction sels arbitrary: st)
  case Nil
  then show ?case by (simp add: outcome_state_def)
next
  case (Cons sel sels)
  show ?case
  proof (cases "taken sel")
    case Quit
    with Cons.prems show ?thesis by (simp add: outcome_state_def wx_inv_def)
  next
    case (WhoisRequest domain)
    with Cons show ?thesis by (simp add: whois_case_inv)
  next
    case AddrRequest
    with Cons.prems have "wx_inv P (RateLimit w) (st\<lparr> now := now st + int (waited sel) \<rparr>)"
      by (simp add: wx_inv_def)
    with AddrRequest Cons.IH show ?thesis by simp
  next
    case ASNRequest
    with Cons.prems have "wx_inv P (RateLimit w) (st\<lparr> now := now st + int (waited sel) \<rparr>)"
      by (simp add: wx_inv_def)
    with ASNRequest Cons.IH show ?thesis by simp
  qed
qed

lemma Truncate_le: "Truncate t d \<le> t"
  by (simp add: Truncate_def)

text \<open>
  Claim C9. Whatever requests arrive and however the time passes, every call of
  \<^verbatim>\<open>executeWhoisQuery\<close> made by \<^verbatim>\<open>processRequests\<close> is for a domain in scope, and
  between the end of one call and the start of the next at least the rate limit of
  \<^verbatim>\<open>NewWhoisXML\<close>, ten seconds, passes.
\<close>

theorem whoisxml_rate_limited:
  "list_all (\<lambda>q. IsDomainInScope (q_domain q))
      (queries (outcome_state (processRequests IsDomainInScope (NewWhoisXML tag) start sels)))
   \<and> spaced (10 * Second)
      (queries (outcome_state (processRequests IsDomainInScope (NewWhoisXML tag) start sels)))"
proof -
  let ?w = "NewWhoisXML tag"
  have "wx_inv IsDomainInScope (RateLimit ?w)
          \<lparr> now = start, last_t = Truncate start (10 * Minute), queries = [] \<rparr>"
    by (simp add: wx_inv_def Truncate_le)
  then have "wx_inv IsDomainInScope (RateLimit ?w)
          (outcome_state (processRequests IsDomainInScope ?w start sels))"
    unfolding processRequests_def by (rule requests_loop_inv)
  then show ?thesis by (simp add: wx_inv_def NewWhoisXML_def)
qed

text \<open>
  A run of three whois requests and one address request: the request for a domain out of
  scope is skipped, and the third request, arriving four seconds after the first query
  ended, is delayed so that it starts fourteen seconds after that end.
\<close>

theorem whoisxml_rate_limited_witness:
  "queries (outcome_state (processRequests (\<lambda>d. d = ''example.com'') (NewWhoisXML ''api'')
      1700000000123456789
      [\<lparr> taken = WhoisRequest ''example.com'', waited = 3000000000, lag = 5, took = 2000000000 \<rparr>,
       \<lparr> taken = WhoisRequest ''other.org'', waited = 1, lag = 0, took = 7 \<rparr>,
       \<lparr> taken = AddrRequest, waited = 1, lag = 0, took = 7 \<rparr>,
       \<lparr> taken = WhoisRequest ''example.com'', waited = 4000000000, lag = 1, took = 1000000000 \<rparr>]))
   = [\<lparr> q_domain = ''example.com'', q_start = 1700000003123456794, q_finish = 1700000005123456794 \<rparr>,
      \<lparr> q_domain = ''example.com'', q_start = 1700000019123456797, q_finish = 1700000020123456797 \<rparr>]
   \<and> spaced (10 * Second) (queries (outcome_state (processRequests (\<lambda>d. d = ''example.com'')
      (NewWhoisXML ''api'') 1700000000123456789
      [\<lparr> taken = WhoisRequest ''example.com'', waited = 3000000000, lag = 5, took = 2000000000 \<rparr>,
       \<lparr> taken = WhoisRequest ''other.org'', waited = 1, lag = 0, took = 7 \<rparr>,
       \<lparr> taken = AddrRequest, waited = 1, lag = 0, took = 7 \<rparr>,
       \<lparr> taken = WhoisRequest ''example.com'', waited = 4000000000, lag = 1, took = 1000000000 \<rparr>])))"
  using whoisxml_rate_limited [of "\<lambda>d. d = ''example.com''" "''api''" 1700000000123456789
      "[\<lparr> taken = WhoisRequest ''example.com'', waited = 3000000000, lag = 5, took = 2000000000 \<rparr>,
       \<lparr> taken = WhoisRequest ''other.org'', waited = 1, lag = 0, took = 7 \<rparr>,
       \<lparr> taken = AddrRequest, waited = 1, lag = 0, took = 7 \<rparr>,
       \<lparr> taken = WhoisRequest ''example.com'', waited = 4000000000, lag = 1, took = 1000000000 \<rparr>]"]
  by (simp add: processRequests_def whois_case_def NewWhoisXML_def outcome_state_def
      Truncate_def Second_def Minute_def)

end
